theory Spec2Isabelle
  imports Main "HOL-Library.DAList" "HOL-Library.Sublist"
begin

section \<open>The virtual file tree of the Qwik CLI plugin SDK\<close>

text \<open>
  This theory embeds \<^verbatim>\<open>packages/qwik/src/cli/plugin-sdk/virtual-file-tree.ts\<close>:
  the class \<^verbatim>\<open>VirtualFileTree\<close> (operation queue, original-state store, latest-content
  cache, commit, rollback) and the class \<^verbatim>\<open>VirtualFileTreeCheckpoint\<close>.

  Conventions of the embedding.
  \<^item> A path is the list of its components. \<^verbatim>\<open>resolve(rootDir, path)\<close> appends the relative
    path to the root, \<^verbatim>\<open>relative(rootDir, abs)\<close> strips the root again and \<^verbatim>\<open>dirname\<close>
    drops the last component. Callers pass canonical relative paths below the root.
  \<^item> The real filesystem is a map from absolute paths to nodes (regular file with its
    content, or directory) together with the trace of every \<^verbatim>\<open>node:fs\<close> call made so far.
    Only the failures that follow from the shape of the tree are modelled (missing path,
    directory in the place of a file, missing parent directory); permissions, quotas and
    symbolic links are not.
  \<^item> The content of a regular file is the text that reading it as \<^verbatim>\<open>'utf-8'\<close> returns, and
    writing a text as \<^verbatim>\<open>'utf-8'\<close> stores that text: the class never sees more of a file.
    A file whose bytes are not valid UTF-8 is identified with its decoded text, so every
    statement about content is one about text, not about bytes.
  \<^item> A JavaScript \<^verbatim>\<open>Map\<close> is an association list with distinct keys in insertion order
    (\<^typ>\<open>('k, 'v) alist\<close>): \<^verbatim>\<open>set\<close> on a present key keeps its position, on a new key
    appends.
  \<^item> Every method takes the object state and the world and returns its outcome together
    with the new object state and the new world; a thrown \<^verbatim>\<open>Error\<close> is \<open>Inl\<close>.
  \<^item> The operation id \<^verbatim>\<open>op_N\<close> is represented by the number \<open>N\<close>; the \<^verbatim>\<open>fs.Stats\<close>
    value kept in an original state is opaque to the class and left out.
\<close>

subsection \<open>Paths and the filesystem\<close>

type_synonym path = "string list"

definition resolve :: "path \<Rightarrow> path \<Rightarrow> path" where
  "resolve root p = root @ p"

definition relative :: "path \<Rightarrow> path \<Rightarrow> path" where
  "relative root a = drop (length root) a"

definition dirname :: "path \<Rightarrow> path" where
  "dirname p = butlast p"

datatype node = File string | Dir

datatype fs_event =
    EvStat path
  | EvReadFile path
  | EvExistsSync path
  | EvMkdir path
  | EvWriteFile path string
  | EvUnlink path

record world =
  disk :: "path \<rightharpoonup> node"
  trace :: "fs_event list"

definition log_event :: "fs_event \<Rightarrow> world \<Rightarrow> world" where
  "log_event e w = w\<lparr>trace := trace w @ [e]\<rparr>"

text \<open>\<^verbatim>\<open>fs.promises.stat\<close>: throws (\<open>None\<close>) on a missing path, otherwise tells whether
  the node is a regular file (\<^verbatim>\<open>stats.isFile()\<close>).\<close>

definition fs_stat :: "path \<Rightarrow> world \<Rightarrow> bool option \<times> world" where
  "fs_stat p w =
     ((case disk w p of None \<Rightarrow> None | Some (File c) \<Rightarrow> Some True | Some Dir \<Rightarrow> Some False),
      log_event (EvStat p) w)"

text \<open>\<^verbatim>\<open>fs.promises.readFile(p, 'utf-8')\<close>: the content of a regular file, throws otherwise.\<close>

definition fs_readFile :: "path \<Rightarrow> world \<Rightarrow> string option \<times> world" where
  "fs_readFile p w =
     ((case disk w p of Some (File c) \<Rightarrow> Some c | _ \<Rightarrow> None), log_event (EvReadFile p) w)"

text \<open>\<^verbatim>\<open>fs.existsSync\<close>: true for a regular file and for a directory.\<close>

definition fs_existsSync :: "path \<Rightarrow> world \<Rightarrow> bool \<times> world" where
  "fs_existsSync p w = (disk w p \<noteq> None, log_event (EvExistsSync p) w)"

text \<open>\<^verbatim>\<open>fs.promises.mkdir(d, {recursive: true})\<close>: walks the ancestors of \<open>d\<close> from the top,
  creates the missing ones and fails at the first one that is a regular file.\<close>

fun mkdir_chain :: "path list \<Rightarrow> (path \<rightharpoonup> node) \<Rightarrow> bool \<times> (path \<rightharpoonup> node)" where
  "mkdir_chain [] d = (True, d)"
| "mkdir_chain (q # qs) d =
     (case d q of
        Some (File c) \<Rightarrow> (False, d)
      | Some Dir \<Rightarrow> mkdir_chain qs d
      | None \<Rightarrow> mkdir_chain qs (d(q \<mapsto> Dir)))"

definition fs_mkdir :: "path \<Rightarrow> world \<Rightarrow> bool \<times> world" where
  "fs_mkdir p w =
     (case mkdir_chain (prefixes p) (disk w) of
        (ok, d') \<Rightarrow> (ok, log_event (EvMkdir p) (w\<lparr>disk := d'\<rparr>)))"

text \<open>\<^verbatim>\<open>fs.promises.writeFile(p, c, 'utf-8')\<close>: fails on a directory and below a missing
  parent directory, otherwise creates or replaces the regular file.\<close>

definition fs_writeFile :: "path \<Rightarrow> string \<Rightarrow> world \<Rightarrow> bool \<times> world" where
  "fs_writeFile p c w =
     (if p \<noteq> [] \<and> disk w p \<noteq> Some Dir \<and> disk w (dirname p) = Some Dir
      then (True, log_event (EvWriteFile p c) (w\<lparr>disk := (disk w)(p \<mapsto> File c)\<rparr>))
      else (False, log_event (EvWriteFile p c) w))"

text \<open>\<^verbatim>\<open>fs.promises.unlink\<close>: removes a regular file, fails on a missing path and on a
  directory.\<close>

definition fs_unlink :: "path \<Rightarrow> world \<Rightarrow> bool \<times> world" where
  "fs_unlink p w =
     (case disk w p of
        Some (File c) \<Rightarrow> (True, log_event (EvUnlink p) (w\<lparr>disk := (disk w)(p := None)\<rparr>))
      | _ \<Rightarrow> (False, log_event (EvUnlink p) w))"

subsection \<open>The data model\<close>

datatype optype = Create | Modify | Delete | Append | Prepend

record OriginalFileState =
  existed :: bool
  orig_content :: "string option"

record CurrentFileState =
  content :: string
  exists :: bool

record FileOperation =
  opid :: nat
  path :: path
  type :: optype
  op_content :: "string option"

record VirtualFileTree =
  operationQueue :: "FileOperation list"
  originalStates :: "(path, OriginalFileState) alist"
  latestContent :: "(path, CurrentFileState) alist"
  rootDir :: path
  isCommitted :: bool
  operationCounter :: nat

datatype error =
    NotFound path
  | CreateConflict path
  | MissingFile optype path
  | AlreadyCommitted
  | CommitFailed
  | RestoreFailed
  | TypeError

text \<open>\<^verbatim>\<open>content || ''\<close>.\<close>

definition or_empty :: "string option \<Rightarrow> string" where
  "or_empty c = (case c of None \<Rightarrow> [] | Some s \<Rightarrow> s)"

definition new_VirtualFileTree :: "path \<Rightarrow> VirtualFileTree" where
  "new_VirtualFileTree root =
     \<lparr>operationQueue = [], originalStates = DAList.empty, latestContent = DAList.empty,
      rootDir = root, isCommitted = False, operationCounter = 0\<rparr>"

definition initialize :: "VirtualFileTree \<Rightarrow> VirtualFileTree" where
  "initialize v =
     v\<lparr>originalStates := DAList.empty, latestContent := DAList.empty, operationQueue := [],
       isCommitted := False, operationCounter := 0\<rparr>"

subsection \<open>Reading\<close>

text \<open>\<^verbatim>\<open>readFile(path)\<close>: the cached entry decides when there is one; otherwise the
  file is read from disk and, when it is a regular file, cached as existing.\<close>

definition readFile ::
  "path \<Rightarrow> VirtualFileTree \<Rightarrow> world \<Rightarrow> (error + string) \<times> VirtualFileTree \<times> world" where
  "readFile p v w =
     (let absolutePath = resolve (rootDir v) p;
          relativePath = relative (rootDir v) absolutePath
      in case DAList.lookup (latestContent v) relativePath of
           Some cached \<Rightarrow>
             if \<not> exists cached then (Inl (NotFound p), v, w)
             else (Inr (content cached), v, w)
         | None \<Rightarrow>
             (case fs_stat absolutePath w of
                (Some True, w1) \<Rightarrow>
                  (case fs_readFile absolutePath w1 of
                     (Some c, w2) \<Rightarrow>
                       (Inr c,
                        v\<lparr>latestContent :=
                            DAList.update relativePath \<lparr>content = c, exists = True\<rparr>
                              (latestContent v)\<rparr>,
                        w2)
                   | (None, w2) \<Rightarrow> (Inl (NotFound p), v, w2))
              | (_, w1) \<Rightarrow> (Inl (NotFound p), v, w1)))"

text \<open>\<^verbatim>\<open>fileExists(path)\<close>: the cached flag, or \<^verbatim>\<open>fs.existsSync\<close> when nothing is
  cached.\<close>

definition fileExists :: "path \<Rightarrow> VirtualFileTree \<Rightarrow> world \<Rightarrow> bool \<times> world" where
  "fileExists p v w =
     (let absolutePath = resolve (rootDir v) p;
          relativePath = relative (rootDir v) absolutePath
      in case DAList.lookup (latestContent v) relativePath of
           Some cached \<Rightarrow> (exists cached, w)
         | None \<Rightarrow> fs_existsSync absolutePath w)"

subsection \<open>Staging\<close>

text \<open>\<^verbatim>\<open>_captureOriginalState(relativePath, absolutePath)\<close>.\<close>

definition captureOriginalState ::
  "path \<Rightarrow> path \<Rightarrow> VirtualFileTree \<Rightarrow> world \<Rightarrow> VirtualFileTree \<times> world" where
  "captureOriginalState relativePath absolutePath v w =
     (case (case fs_stat absolutePath w of
              (Some True, w1) \<Rightarrow>
                (case fs_readFile absolutePath w1 of
                   (Some c, w2) \<Rightarrow> (\<lparr>existed = True, orig_content = Some c\<rparr>, w2)
                 | (None, w2) \<Rightarrow> (\<lparr>existed = False, orig_content = None\<rparr>, w2))
            | (_, w1) \<Rightarrow> (\<lparr>existed = False, orig_content = None\<rparr>, w1)) of
        (originalState, w') \<Rightarrow>
          (v\<lparr>originalStates := DAList.update relativePath originalState (originalStates v)\<rparr>,
           w'))"

text \<open>The \<^verbatim>\<open>switch\<close> of \<^verbatim>\<open>_updateLatestContent\<close>: one operation applied to a cached
  state.\<close>

fun applyOperation :: "optype \<Rightarrow> string option \<Rightarrow> CurrentFileState \<Rightarrow> CurrentFileState" where
  "applyOperation Create c currentState = \<lparr>content = or_empty c, exists = True\<rparr>"
| "applyOperation Modify c currentState =
     \<lparr>content = or_empty c, exists = exists currentState\<rparr>"
| "applyOperation Append c currentState =
     \<lparr>content = content currentState @ or_empty c, exists = exists currentState\<rparr>"
| "applyOperation Prepend c currentState =
     \<lparr>content = or_empty c @ content currentState, exists = exists currentState\<rparr>"
| "applyOperation Delete c currentState = \<lparr>content = [], exists = False\<rparr>"

text \<open>\<^verbatim>\<open>_updateLatestContent(relativePath, type, content)\<close>: the cached state, or the one
  read from disk, with the operation applied, is stored in the cache.\<close>

definition updateLatestContent ::
  "path \<Rightarrow> optype \<Rightarrow> string option \<Rightarrow> VirtualFileTree \<Rightarrow> world \<Rightarrow> VirtualFileTree \<times> world"
  where
  "updateLatestContent relativePath ty c v w =
     (case (case DAList.lookup (latestContent v) relativePath of
              Some currentState \<Rightarrow> (currentState, w)
            | None \<Rightarrow>
                (let absolutePath = resolve (rootDir v) relativePath
                 in case fs_stat absolutePath w of
                      (Some True, w1) \<Rightarrow>
                        (case fs_readFile absolutePath w1 of
                           (Some fileContent, w2) \<Rightarrow>
                             (\<lparr>content = fileContent, exists = True\<rparr>, w2)
                         | (None, w2) \<Rightarrow> (\<lparr>content = [], exists = False\<rparr>, w2))
                    | (_, w1) \<Rightarrow> (\<lparr>content = [], exists = False\<rparr>, w1))) of
        (currentState, w') \<Rightarrow>
          (v\<lparr>latestContent :=
               DAList.update relativePath (applyOperation ty c currentState) (latestContent v)\<rparr>,
           w'))"

text \<open>The test \<^verbatim>\<open>operationQueue.filter(op => op.path === relativePath).some(op => op.type
  === 'delete')\<close> of \<^verbatim>\<open>_addOperation\<close>.\<close>

definition hasDeleteOperation :: "FileOperation list \<Rightarrow> path \<Rightarrow> bool" where
  "hasDeleteOperation q relativePath =
     list_ex (\<lambda>op. type op = Delete) (filter (\<lambda>op. path op = relativePath) q)"

text \<open>\<^verbatim>\<open>_addOperation(path, type, content)\<close>: capture the original state when the path
  has none, validate, update the cache, push the operation. The non-null assertion on the
  original state would raise a \<^verbatim>\<open>TypeError\<close> on a missing entry.\<close>

definition addOperation ::
  "path \<Rightarrow> optype \<Rightarrow> string option \<Rightarrow> VirtualFileTree \<Rightarrow> world
     \<Rightarrow> (error + unit) \<times> VirtualFileTree \<times> world" where
  "addOperation p ty c v w =
     (let absolutePath = resolve (rootDir v) p;
          relativePath = relative (rootDir v) absolutePath
      in case (if DAList.lookup (originalStates v) relativePath = None
               then captureOriginalState relativePath absolutePath v w else (v, w)) of
           (v1, w1) \<Rightarrow>
             (case fileExists p v1 w1 of
                (currentExists, w2) \<Rightarrow>
                  (case DAList.lookup (originalStates v1) relativePath of
                     None \<Rightarrow> (Inl TypeError, v1, w2)
                   | Some originalState \<Rightarrow>
                       if ty = Create \<and> (existed originalState \<or> currentExists)
                          \<and> \<not> hasDeleteOperation (operationQueue v1) relativePath
                       then (Inl (CreateConflict p), v1, w2)
                       else if (ty = Modify \<or> ty = Delete \<or> ty = Append \<or> ty = Prepend)
                               \<and> \<not> currentExists
                       then (Inl (MissingFile ty p), v1, w2)
                       else (case updateLatestContent relativePath ty c v1 w2 of
                               (v3, w3) \<Rightarrow>
                                 (Inr (),
                                  v3\<lparr>operationQueue :=
                                       operationQueue v3 @
                                         [\<lparr>opid = Suc (operationCounter v3),
                                           path = relativePath, type = ty, op_content = c\<rparr>],
                                     operationCounter := Suc (operationCounter v3)\<rparr>,
                                  w3)))))"

definition createFile ::
  "path \<Rightarrow> string \<Rightarrow> VirtualFileTree \<Rightarrow> world \<Rightarrow> (error + unit) \<times> VirtualFileTree \<times> world"
  where
  "createFile p c = addOperation p Create (Some c)"

definition modifyFile ::
  "path \<Rightarrow> string \<Rightarrow> VirtualFileTree \<Rightarrow> world \<Rightarrow> (error + unit) \<times> VirtualFileTree \<times> world"
  where
  "modifyFile p c = addOperation p Modify (Some c)"

definition appendToFile ::
  "path \<Rightarrow> string \<Rightarrow> VirtualFileTree \<Rightarrow> world \<Rightarrow> (error + unit) \<times> VirtualFileTree \<times> world"
  where
  "appendToFile p c = addOperation p Append (Some c)"

definition prependToFile ::
  "path \<Rightarrow> string \<Rightarrow> VirtualFileTree \<Rightarrow> world \<Rightarrow> (error + unit) \<times> VirtualFileTree \<times> world"
  where
  "prependToFile p c = addOperation p Prepend (Some c)"

definition deleteFile ::
  "path \<Rightarrow> VirtualFileTree \<Rightarrow> world \<Rightarrow> (error + unit) \<times> VirtualFileTree \<times> world" where
  "deleteFile p = addOperation p Delete None"

text \<open>\<^verbatim>\<open>transformFile\<close>: a failed read is replaced by the empty string.\<close>

definition transformFile ::
  "path \<Rightarrow> (string \<Rightarrow> string) \<Rightarrow> VirtualFileTree \<Rightarrow> world
     \<Rightarrow> (error + unit) \<times> VirtualFileTree \<times> world" where
  "transformFile p transformer v w =
     (case readFile p v w of
        (r, v1, w1) \<Rightarrow>
          (let currentContent = (case r of Inr s \<Rightarrow> s | Inl e \<Rightarrow> []);
               newContent = transformer currentContent
           in addOperation p Modify (Some newContent) v1 w1))"

definition overwriteFile ::
  "path \<Rightarrow> string \<Rightarrow> VirtualFileTree \<Rightarrow> world \<Rightarrow> (error + unit) \<times> VirtualFileTree \<times> world"
  where
  "overwriteFile p c v w =
     (case fileExists p v w of
        (ex, w1) \<Rightarrow> addOperation p (if ex then Modify else Create) (Some c) v w1)"

definition preview :: "VirtualFileTree \<Rightarrow> FileOperation list" where
  "preview v = map (\<lambda>op. op) (operationQueue v)"

definition getTrackedFiles :: "VirtualFileTree \<Rightarrow> path list" where
  "getTrackedFiles v = map fst (DAList.impl_of (originalStates v))"

subsection \<open>Commit and rollback\<close>

text \<open>A JavaScript \<^verbatim>\<open>Set\<close> built from a list: first occurrences, in insertion order.\<close>

definition set_add :: "'a \<Rightarrow> 'a list \<Rightarrow> 'a list" where
  "set_add x s = (if x \<in> set s then s else s @ [x])"

definition new_Set :: "'a list \<Rightarrow> 'a list" where
  "new_Set xs = foldl (\<lambda>s x. set_add x s) [] xs"

text \<open>The first loop of \<^verbatim>\<open>commit\<close>: the first failing \<^verbatim>\<open>mkdir\<close> throws.\<close>

fun createDirectories :: "path list \<Rightarrow> world \<Rightarrow> bool \<times> world" where
  "createDirectories [] w = (True, w)"
| "createDirectories (dir # dirs) w =
     (case fs_mkdir dir w of
        (True, w1) \<Rightarrow> createDirectories dirs w1
      | (False, w1) \<Rightarrow> (False, w1))"

text \<open>The second loop of \<^verbatim>\<open>commit\<close>, over the entries of the cache: an existing entry is
  written (a failure throws), any other is unlinked and a failure of that is swallowed.\<close>

fun writeLatest :: "path \<Rightarrow> (path \<times> CurrentFileState) list \<Rightarrow> world \<Rightarrow> bool \<times> world" where
  "writeLatest root [] w = (True, w)"
| "writeLatest root ((relativePath, latestState) # rest) w =
     (let absolutePath = resolve root relativePath
      in if exists latestState
         then (case fs_writeFile absolutePath (content latestState) w of
                 (True, w1) \<Rightarrow> writeLatest root rest w1
               | (False, w1) \<Rightarrow> (False, w1))
         else (case fs_unlink absolutePath w of
                 (ok, w1) \<Rightarrow> writeLatest root rest w1))"

definition commit ::
  "VirtualFileTree \<Rightarrow> world \<Rightarrow> (error + unit) \<times> VirtualFileTree \<times> world" where
  "commit v w =
     (if isCommitted v then (Inl AlreadyCommitted, v, w)
      else
        (let affectedFiles = new_Set (map (\<lambda>op. resolve (rootDir v) (path op)) (operationQueue v));
             directories = new_Set (map dirname affectedFiles)
         in case createDirectories directories w of
              (False, w1) \<Rightarrow> (Inl CommitFailed, v, w1)
            | (True, w1) \<Rightarrow>
                (case writeLatest (rootDir v) (DAList.impl_of (latestContent v)) w1 of
                   (False, w2) \<Rightarrow> (Inl CommitFailed, v, w2)
                 | (True, w2) \<Rightarrow> (Inr (), v\<lparr>isCommitted := True\<rparr>, w2))))"

text \<open>The loop of \<^verbatim>\<open>_restoreOriginalState\<close>. Every promise is started before any is
  awaited, so every entry is acted on; \<^verbatim>\<open>Promise.all\<close> rejects when some write failed,
  while a failed unlink is swallowed. The entries have distinct paths.\<close>

fun restoreEntries :: "path \<Rightarrow> (path \<times> OriginalFileState) list \<Rightarrow> world \<Rightarrow> bool \<times> world"
  where
  "restoreEntries root [] w = (True, w)"
| "restoreEntries root ((relativePath, originalState) # rest) w =
     (let absolutePath = resolve root relativePath
      in if existed originalState
         then (case fs_writeFile absolutePath (or_empty (orig_content originalState)) w of
                 (ok, w1) \<Rightarrow>
                   (case restoreEntries root rest w1 of (ok', w2) \<Rightarrow> (ok \<and> ok', w2)))
         else (case fs_unlink absolutePath w of
                 (ok, w1) \<Rightarrow> restoreEntries root rest w1))"

definition restoreOriginalState ::
  "VirtualFileTree \<Rightarrow> world \<Rightarrow> (error + unit) \<times> VirtualFileTree \<times> world" where
  "restoreOriginalState v w =
     (case restoreEntries (rootDir v) (DAList.impl_of (originalStates v)) w of
        (False, w1) \<Rightarrow> (Inl RestoreFailed, v, w1)
      | (True, w1) \<Rightarrow>
          (Inr (),
           v\<lparr>operationQueue := [], latestContent := DAList.empty,
             originalStates := DAList.empty, isCommitted := False, operationCounter := 0\<rparr>,
           w1))"

definition rollback ::
  "VirtualFileTree \<Rightarrow> world \<Rightarrow> (error + unit) \<times> VirtualFileTree \<times> world" where
  "rollback v w =
     (if isCommitted v then restoreOriginalState v w
      else (Inr (), v\<lparr>operationQueue := [], latestContent := DAList.empty\<rparr>, w))"

subsection \<open>Checkpoints and export\<close>

record VirtualFileTreeCheckpoint =
  savedOperations :: "FileOperation list"
  savedOriginalStates :: "(path, OriginalFileState) alist"
  savedLatestContent :: "(path, CurrentFileState) alist"
  savedCounter :: nat

definition createCheckpoint :: "VirtualFileTree \<Rightarrow> VirtualFileTreeCheckpoint" where
  "createCheckpoint v =
     \<lparr>savedOperations = operationQueue v, savedOriginalStates = originalStates v,
      savedLatestContent = latestContent v, savedCounter = operationCounter v\<rparr>"

definition restore :: "VirtualFileTreeCheckpoint \<Rightarrow> VirtualFileTree \<Rightarrow> VirtualFileTree" where
  "restore cp v =
     v\<lparr>operationQueue := savedOperations cp, originalStates := savedOriginalStates cp,
       latestContent := savedLatestContent cp, operationCounter := savedCounter cp,
       isCommitted := False\<rparr>"

datatype update_type = UpdCreate | UpdModify | UpdDelete

record 'b FsUpdate =
  upd_path :: path
  upd_content :: 'b
  upd_type :: update_type

text \<open>\<^verbatim>\<open>toFsUpdates()\<close>. The encoder \<^verbatim>\<open>Buffer.from(s, 'utf-8')\<close> is a parameter.\<close>

definition toFsUpdates :: "(string \<Rightarrow> 'b) \<Rightarrow> VirtualFileTree \<Rightarrow> 'b FsUpdate list" where
  "toFsUpdates utf8 v =
     map (\<lambda>(p, state).
            \<lparr>upd_path = resolve (rootDir v) p, upd_content = utf8 (content state),
             upd_type = UpdModify\<rparr>)
       (filter (\<lambda>(p, state). exists state) (DAList.impl_of (latestContent v)))"

section \<open>Views of the state used by the properties\<close>

text \<open>What \<^verbatim>\<open>_captureOriginalState\<close> records for an absolute path on a given disk.\<close>

definition originalOf :: "(path \<rightharpoonup> node) \<Rightarrow> path \<Rightarrow> OriginalFileState" where
  "originalOf d a =
     (case d a of
        Some (File c) \<Rightarrow> \<lparr>existed = True, orig_content = Some c\<rparr>
      | _ \<Rightarrow> \<lparr>existed = False, orig_content = None\<rparr>)"

text \<open>The state of an absolute path on a given disk: the content of a regular file, or
  absence.\<close>

definition diskState :: "(path \<rightharpoonup> node) \<Rightarrow> path \<Rightarrow> CurrentFileState" where
  "diskState d a =
     (case d a of
        Some (File c) \<Rightarrow> \<lparr>content = c, exists = True\<rparr>
      | _ \<Rightarrow> \<lparr>content = [], exists = False\<rparr>)"

text \<open>The answer of \<^verbatim>\<open>fileExists\<close>.\<close>

definition virtualExists :: "VirtualFileTree \<Rightarrow> (path \<rightharpoonup> node) \<Rightarrow> path \<Rightarrow> bool" where
  "virtualExists v d p =
     (case DAList.lookup (latestContent v) p of
        Some s \<Rightarrow> exists s
      | None \<Rightarrow> d (resolve (rootDir v) p) \<noteq> None)"

text \<open>The tree after the capture step of \<^verbatim>\<open>_addOperation\<close>.\<close>

definition captured :: "VirtualFileTree \<Rightarrow> (path \<rightharpoonup> node) \<Rightarrow> path \<Rightarrow> VirtualFileTree" where
  "captured v d p =
     (if DAList.lookup (originalStates v) p = None
      then v\<lparr>originalStates :=
               DAList.update p (originalOf d (resolve (rootDir v) p)) (originalStates v)\<rparr>
      else v)"

text \<open>The error, if any, with which \<^verbatim>\<open>_addOperation\<close> rejects an operation.\<close>

definition rejects ::
  "VirtualFileTree \<Rightarrow> (path \<rightharpoonup> node) \<Rightarrow> path \<Rightarrow> optype \<Rightarrow> error option" where
  "rejects v d p ty =
     (let v1 = captured v d p
      in case DAList.lookup (originalStates v1) p of
           None \<Rightarrow> Some TypeError
         | Some originalState \<Rightarrow>
             if ty = Create \<and> (existed originalState \<or> virtualExists v1 d p)
                \<and> \<not> hasDeleteOperation (operationQueue v1) p
             then Some (CreateConflict p)
             else if ty \<noteq> Create \<and> \<not> virtualExists v1 d p then Some (MissingFile ty p)
             else None)"

text \<open>The tree after the cache update and the push of an accepted operation.\<close>

definition staged ::
  "VirtualFileTree \<Rightarrow> (path \<rightharpoonup> node) \<Rightarrow> path \<Rightarrow> optype \<Rightarrow> string option \<Rightarrow> VirtualFileTree"
  where
  "staged v d p ty c =
     v\<lparr>latestContent :=
         DAList.update p
           (applyOperation ty c
              (case DAList.lookup (latestContent v) p of
                 Some s \<Rightarrow> s
               | None \<Rightarrow> diskState d (resolve (rootDir v) p)))
           (latestContent v),
       operationQueue :=
         operationQueue v @
           [\<lparr>opid = Suc (operationCounter v), path = p, type = ty, op_content = c\<rparr>],
       operationCounter := Suc (operationCounter v)\<rparr>"


text \<open>The filesystem call that \<^verbatim>\<open>commit\<close> issues for an entry of the cache, and the
  one that \<^verbatim>\<open>_restoreOriginalState\<close> issues for an entry of the original-state store.\<close>

definition commitEvent :: "path \<Rightarrow> path \<times> CurrentFileState \<Rightarrow> fs_event" where
  "commitEvent root e =
     (if exists (snd e) then EvWriteFile (resolve root (fst e)) (content (snd e))
      else EvUnlink (resolve root (fst e)))"

definition restoreEvent :: "path \<Rightarrow> path \<times> OriginalFileState \<Rightarrow> fs_event" where
  "restoreEvent root e =
     (if existed (snd e) then EvWriteFile (resolve root (fst e)) (or_empty (orig_content (snd e)))
      else EvUnlink (resolve root (fst e)))"

text \<open>When \<^verbatim>\<open>fs.promises.writeFile\<close> succeeds on a disk: the path is not a directory and its
  parent directory is there.\<close>

definition writable :: "(path \<rightharpoonup> node) \<Rightarrow> path \<Rightarrow> bool" where
  "writable d a = (a \<noteq> [] \<and> d a \<noteq> Some Dir \<and> d (dirname a) = Some Dir)"

text \<open>The directories that \<^verbatim>\<open>commit\<close> makes in its first loop: the parents of the queued
  paths.\<close>

definition commitDirectories :: "VirtualFileTree \<Rightarrow> path list" where
  "commitDirectories v =
     new_Set (map dirname
       (new_Set (map (\<lambda>op. resolve (rootDir v) (path op)) (operationQueue v))))"


section \<open>The projection as the specification describes it\<close>

text \<open>One queued operation applied to a state, in the words of the specification: create
  sets the content and makes the file exist, modify replaces the content, append and prepend
  add to it at the end and at the front, delete leaves the empty, absent state.\<close>

fun spec_step :: "CurrentFileState \<Rightarrow> FileOperation \<Rightarrow> CurrentFileState" where
  "spec_step s op =
     (case type op of
        Create \<Rightarrow> \<lparr>content = or_empty (op_content op), exists = True\<rparr>
      | Modify \<Rightarrow> s\<lparr>content := or_empty (op_content op)\<rparr>
      | Append \<Rightarrow> s\<lparr>content := content s @ or_empty (op_content op)\<rparr>
      | Prepend \<Rightarrow> s\<lparr>content := or_empty (op_content op) @ content s\<rparr>
      | Delete \<Rightarrow> \<lparr>content = [], exists = False\<rparr>)"

text \<open>The left fold of the queued operations of one path, in queue order, over the state of
  that path on the disk \<open>d\<close>.\<close>

definition spec_projection ::
  "(path \<rightharpoonup> node) \<Rightarrow> path \<Rightarrow> FileOperation list \<Rightarrow> path \<Rightarrow> CurrentFileState" where
  "spec_projection d root q p =
     foldl spec_step (diskState d (resolve root p)) (filter (\<lambda>op. path op = p) q)"

text \<open>The calls a plugin can make on a transaction before it commits. A call that throws
  leaves the tree as the method left it, and the plugin goes on.\<close>

datatype command =
    CreateFile path string
  | ModifyFile path string
  | AppendToFile path string
  | PrependToFile path string
  | DeleteFile path
  | TransformFile path "string \<Rightarrow> string"
  | OverwriteFile path string
  | ReadFile path
  | FileExists path
  | Rollback

fun step :: "command \<Rightarrow> VirtualFileTree \<times> world \<Rightarrow> VirtualFileTree \<times> world" where
  "step (CreateFile p c) (v, w) = snd (createFile p c v w)"
| "step (ModifyFile p c) (v, w) = snd (modifyFile p c v w)"
| "step (AppendToFile p c) (v, w) = snd (appendToFile p c v w)"
| "step (PrependToFile p c) (v, w) = snd (prependToFile p c v w)"
| "step (DeleteFile p) (v, w) = snd (deleteFile p v w)"
| "step (TransformFile p f) (v, w) = snd (transformFile p f v w)"
| "step (OverwriteFile p c) (v, w) = snd (overwriteFile p c v w)"
| "step (ReadFile p) (v, w) = snd (readFile p v w)"
| "step (FileExists p) (v, w) = (v, snd (fileExists p v w))"
| "step Rollback (v, w) = snd (rollback v w)"

definition run :: "command list \<Rightarrow> VirtualFileTree \<times> world \<Rightarrow> VirtualFileTree \<times> world" where
  "run cs s = foldl (\<lambda>s c. step c s) s cs"

text \<open>The cache agrees with the fold: a cached entry is the fold of the queue, and a path
  without an entry has nothing queued.\<close>

definition projection_inv :: "(path \<rightharpoonup> node) \<Rightarrow> VirtualFileTree \<Rightarrow> bool" where
  "projection_inv d v =
     (\<forall>p. (\<forall>s. DAList.lookup (latestContent v) p = Some s \<longrightarrow>
                 s = spec_projection d (rootDir v) (operationQueue v) p)
          \<and> (DAList.lookup (latestContent v) p = None \<longrightarrow>
                 filter (\<lambda>op. path op = p) (operationQueue v) = []))"

text \<open>What every call before a commit preserves: the cache agrees with the fold over the
  disk \<open>d\<close>, the disk is still \<open>d\<close>, the root is unchanged and nothing is committed.\<close>

definition stable :: "(path \<rightharpoonup> node) \<Rightarrow> path \<Rightarrow> VirtualFileTree \<times> world \<Rightarrow> bool" where
  "stable d root s =
     (projection_inv d (fst s) \<and> disk (snd s) = d \<and> rootDir (fst s) = root
      \<and> \<not> isCommitted (fst s))"



section \<open>Example transactions\<close>

text \<open>A small project: the root directory holds the regular file \<^verbatim>\<open>a.txt\<close> and the
  directory \<^verbatim>\<open>src\<close>. The tree is rooted at the top of the filesystem.\<close>

definition example_world :: world where
  "example_world =
     \<lparr>disk = [[] \<mapsto> Dir, [''a.txt''] \<mapsto> File ''old'', [''src''] \<mapsto> Dir], trace = []\<rparr>"

definition example_tree :: VirtualFileTree where
  "example_tree = initialize (new_VirtualFileTree [])"

text \<open>Sequencing of two calls: the second runs on the tree and the world the first one left,
  whatever its outcome was.\<close>

definition andThen ::
  "'r \<times> VirtualFileTree \<times> world \<Rightarrow> (VirtualFileTree \<Rightarrow> world \<Rightarrow> 's) \<Rightarrow> 's" where
  "andThen r f = (case r of (x, v, w) \<Rightarrow> f v w)"

definition treeOf :: "'r \<times> VirtualFileTree \<times> world \<Rightarrow> VirtualFileTree" where
  "treeOf r = fst (snd r)"

definition worldOf :: "'r \<times> VirtualFileTree \<times> world \<Rightarrow> world" where
  "worldOf r = snd (snd r)"

text \<open>Delete the existing file, create a new one, create and delete a scratch file.\<close>

definition swap_staged :: "(error + unit) \<times> VirtualFileTree \<times> world" where
  "swap_staged =
     andThen
       (andThen
          (andThen (deleteFile [''a.txt''] example_tree example_world)
             (createFile [''new.txt''] ''x''))
          (createFile [''tmp.txt''] ''t''))
       (deleteFile [''tmp.txt''])"

definition swap_calls :: "command list" where
  "swap_calls =
     [DeleteFile [''a.txt''], CreateFile [''new.txt''] ''x'', CreateFile [''tmp.txt''] ''t'',
      DeleteFile [''tmp.txt'']]"

definition swap_committed :: "(error + unit) \<times> VirtualFileTree \<times> world" where
  "swap_committed = andThen swap_staged commit"







text \<open>Delete the existing file and create it again.\<close>

definition recreate_staged :: "(error + unit) \<times> VirtualFileTree \<times> world" where
  "recreate_staged =
     andThen (deleteFile [''a.txt''] example_tree example_world) (createFile [''a.txt''] ''x'')"

text \<open>A creation that is rejected because the file exists, and a deletion that is rejected
  because the file is missing; each followed by a commit and a rollback.\<close>

definition conflict_staged :: "(error + unit) \<times> VirtualFileTree \<times> world" where
  "conflict_staged = createFile [''a.txt''] ''new'' example_tree example_world"

definition conflict_committed :: "(error + unit) \<times> VirtualFileTree \<times> world" where
  "conflict_committed = andThen conflict_staged commit"

definition conflict_rolled_back :: "(error + unit) \<times> VirtualFileTree \<times> world" where
  "conflict_rolled_back = andThen conflict_committed rollback"

definition missing_staged :: "(error + unit) \<times> VirtualFileTree \<times> world" where
  "missing_staged = deleteFile [''none.txt''] example_tree example_world"

definition missing_committed :: "(error + unit) \<times> VirtualFileTree \<times> world" where
  "missing_committed = andThen missing_staged commit"

definition missing_rolled_back :: "(error + unit) \<times> VirtualFileTree \<times> world" where
  "missing_rolled_back = andThen missing_committed rollback"

text \<open>Read the existing file without staging anything, then commit.\<close>

definition read_only :: "(error + string) \<times> VirtualFileTree \<times> world" where
  "read_only = readFile [''a.txt''] example_tree example_world"

definition read_only_rolled_back :: "(error + unit) \<times> VirtualFileTree \<times> world" where
  "read_only_rolled_back = andThen read_only rollback"

definition read_only_rolled_back_committed ::
  "(error + unit) \<times> VirtualFileTree \<times> world" where
  "read_only_rolled_back_committed = andThen read_only_rolled_back commit"

definition read_only_committed :: "(error + unit) \<times> VirtualFileTree \<times> world" where
  "read_only_committed = andThen read_only commit"

text \<open>A run of calls: a file is created, modified and appended to; an existing file is
  prepended to; a creation of the existing file is rejected; a file is read.\<close>

definition example_calls :: "command list" where
  "example_calls =
     [CreateFile [''n.txt''] ''x'', ModifyFile [''n.txt''] ''y'', AppendToFile [''n.txt''] ''!'',
      PrependToFile [''a.txt''] ''very '', CreateFile [''a.txt''] ''zzz'', ReadFile [''n.txt'']]"

definition example_run :: "VirtualFileTree \<times> world" where
  "example_run = run example_calls (initialize example_tree, example_world)"


section \<open>Properties\<close>

subsection \<open>Basic facts about the embedding\<close>

lemma relative_resolve [simp]: "relative root (resolve root p) = p"
  by (simp add: relative_def resolve_def)

lemma impl_of_empty [simp]: "DAList.impl_of DAList.empty = []"
  by (rule DAList.empty.rep_eq)

lemma impl_of_update [simp]:
  "DAList.impl_of (DAList.update k v al) = AList.update k v (DAList.impl_of al)"
  by (rule DAList.update.rep_eq)

lemma capture_vft:
  "fst (captureOriginalState rel a v w) =
     v\<lparr>originalStates := DAList.update rel (originalOf (disk w) a) (originalStates v)\<rparr>"
  by (simp add: captureOriginalState_def originalOf_def fs_stat_def fs_readFile_def log_event_def
      split: option.splits node.splits)

lemma capture_disk: "disk (snd (captureOriginalState rel a v w)) = disk w"
  by (simp add: captureOriginalState_def fs_stat_def fs_readFile_def log_event_def
      split: option.splits node.splits)

lemma fileExists_val: "fst (fileExists p v w) = virtualExists v (disk w) p"
  by (simp add: fileExists_def virtualExists_def fs_existsSync_def Let_def split: option.splits)

lemma fileExists_disk: "disk (snd (fileExists p v w)) = disk w"
  by (simp add: fileExists_def fs_existsSync_def log_event_def Let_def split: option.splits)

lemma update_vft:
  "fst (updateLatestContent rel ty c v w) =
     v\<lparr>latestContent :=
         DAList.update rel
           (applyOperation ty c
              (case DAList.lookup (latestContent v) rel of
                 Some s \<Rightarrow> s
               | None \<Rightarrow> diskState (disk w) (resolve (rootDir v) rel)))
           (latestContent v)\<rparr>"
  by (simp add: updateLatestContent_def diskState_def fs_stat_def fs_readFile_def log_event_def
      Let_def split: option.splits node.splits)

lemma update_disk: "disk (snd (updateLatestContent rel ty c v w)) = disk w"
  by (simp add: updateLatestContent_def fs_stat_def fs_readFile_def log_event_def Let_def
      split: option.splits node.splits)

lemma optype_not_create:
  "(ty = Modify \<or> ty = Delete \<or> ty = Append \<or> ty = Prepend) = (ty \<noteq> Create)"
  by (cases ty) auto

text \<open>\<^verbatim>\<open>_addOperation\<close> in one equation: it either rejects, leaving the tree with the
  captured original state only, or stages.\<close>

lemma addOperation_unfold:
  "addOperation p ty c v w =
     (case rejects v (disk w) p ty of
        Some e \<Rightarrow> (Inl e, captured v (disk w) p, snd (snd (addOperation p ty c v w)))
      | None \<Rightarrow>
          (Inr (), staged (captured v (disk w) p) (disk w) p ty c,
           snd (snd (addOperation p ty c v w))))"
proof -
  define v1 where "v1 = captured v (disk w) p"
  define pre where "pre = (if DAList.lookup (originalStates v) p = None
       then captureOriginalState p (resolve (rootDir v) p) v w else (v, w))"
  have pre1: "fst pre = v1" and pre2: "disk (snd pre) = disk w"
    by (simp_all add: pre_def v1_def captured_def capture_vft capture_disk)
  define w1 where "w1 = snd pre"
  have pre_eq: "pre = (v1, w1)" using pre1 by (simp add: w1_def prod_eq_iff)
  define w2 where "w2 = snd (fileExists p v1 w1)"
  have fe: "fileExists p v1 w1 = (virtualExists v1 (disk w) p, w2)"
    using fileExists_val[of p v1 w1] pre2 by (simp add: w2_def w1_def prod_eq_iff)
  have d2: "disk w2 = disk w" by (simp add: w2_def fileExists_disk w1_def pre2)
  have root1: "rootDir v1 = rootDir v" by (simp add: v1_def captured_def)
  have unf: "addOperation p ty c v w =
     (case DAList.lookup (originalStates v1) p of
        None \<Rightarrow> (Inl TypeError, v1, w2)
      | Some originalState \<Rightarrow>
          if ty = Create \<and> (existed originalState \<or> virtualExists v1 (disk w) p)
             \<and> \<not> hasDeleteOperation (operationQueue v1) p
          then (Inl (CreateConflict p), v1, w2)
          else if ty \<noteq> Create \<and> \<not> virtualExists v1 (disk w) p
          then (Inl (MissingFile ty p), v1, w2)
          else (Inr (), staged v1 (disk w) p ty c, snd (updateLatestContent p ty c v1 w2)))"
    apply (unfold addOperation_def Let_def relative_resolve)
    apply (fold pre_def)
    apply (unfold pre_eq prod.case fe)
    apply (simp add: case_prod_unfold update_vft d2 staged_def optype_not_create root1
        split: option.splits)
    done
  show ?thesis
    unfolding rejects_def Let_def v1_def[symmetric]
    by (subst (1 2 3) unf) (simp split: option.splits)
qed

lemma addOperation_disk: "disk (snd (snd (addOperation p ty c v w))) = disk w"
  by (simp add: addOperation_def Let_def case_prod_unfold capture_disk fileExists_disk update_disk
      split: option.splits)

subsection \<open>Evaluating the embedding on concrete inputs\<close>

named_theorems vft_eval

lemmas [vft_eval] = example_world_def example_tree_def andThen_def treeOf_def worldOf_def
  new_VirtualFileTree_def initialize_def
  resolve_def relative_def dirname_def log_event_def fs_stat_def fs_readFile_def fs_existsSync_def
  fs_mkdir_def fs_writeFile_def fs_unlink_def or_empty_def readFile_def fileExists_def
  captureOriginalState_def updateLatestContent_def hasDeleteOperation_def addOperation_def
  createFile_def modifyFile_def appendToFile_def prependToFile_def deleteFile_def transformFile_def
  overwriteFile_def preview_def getTrackedFiles_def set_add_def new_Set_def commit_def
  restoreOriginalState_def rollback_def createCheckpoint_def restore_def toFsUpdates_def Let_def
  DAList.lookup.rep_eq run_def example_calls_def example_run_def
  swap_calls_def writable_def commitDirectories_def

lemma result_eq: "fst r = x \<Longrightarrow> r = (x, treeOf r, worldOf r)"
  by (simp add: treeOf_def worldOf_def prod_eq_iff)


subsection \<open>What the commit loop and the restore loop do to the disk\<close>

lemma resolve_inj [simp]: "(resolve root p = resolve root q) = (p = q)"
  by (simp add: resolve_def)

lemma writeFile_trace: "trace (snd (fs_writeFile a c w)) = trace w @ [EvWriteFile a c]"
  by (simp add: fs_writeFile_def log_event_def)

lemma unlink_trace: "trace (snd (fs_unlink a w)) = trace w @ [EvUnlink a]"
  by (simp add: fs_unlink_def log_event_def split: option.splits node.splits)

lemma writeFile_disk:
  "disk (snd (fs_writeFile a c w)) b =
     (if fst (fs_writeFile a c w) \<and> b = a then Some (File c) else disk w b)"
  by (simp add: fs_writeFile_def log_event_def)

lemma unlink_disk:
  "disk (snd (fs_unlink a w)) b = (if fst (fs_unlink a w) \<and> b = a then None else disk w b)"
  by (simp add: fs_unlink_def log_event_def split: option.splits node.splits)

lemma unlink_no_file: "disk (snd (fs_unlink a w)) a \<noteq> Some (File c)"
  by (simp add: fs_unlink_def log_event_def split: option.splits node.splits)

lemma writeLatest_trace:
  "writeLatest root al w = (True, w') \<Longrightarrow> trace w' = trace w @ map (commitEvent root) al"
proof (induction al arbitrary: w)
  case Nil
  then show ?case by simp
next
  case (Cons e al)
  obtain p s where e: "e = (p, s)" by (cases e)
  show ?case
  proof (cases "exists s")
    case True
    with Cons.prems e have ok: "fst (fs_writeFile (resolve root p) (content s) w)"
      and rest: "writeLatest root al (snd (fs_writeFile (resolve root p) (content s) w)) = (True, w')"
      by (auto simp: Let_def split: prod.splits bool.splits)
    from Cons.IH[OF rest] True e show ?thesis
      by (simp add: writeFile_trace commitEvent_def)
  next
    case False
    with Cons.prems e have
      rest: "writeLatest root al (snd (fs_unlink (resolve root p) w)) = (True, w')"
      by (auto simp: Let_def split: prod.splits)
    from Cons.IH[OF rest] False e show ?thesis
      by (simp add: unlink_trace commitEvent_def)
  qed
qed

lemma writeLatest_frame:
  "a \<notin> resolve root ` fst ` set al \<Longrightarrow> disk (snd (writeLatest root al w)) a = disk w a"
proof (induction al arbitrary: w)
  case Nil
  then show ?case by simp
next
  case (Cons e al)
  obtain p s where e: "e = (p, s)" by (cases e)
  from Cons.prems e have ne: "a \<noteq> resolve root p" and rest: "a \<notin> resolve root ` fst ` set al"
    by auto
  show ?case
    using Cons.IH[OF rest] ne e
    by (simp add: Let_def writeFile_disk unlink_disk split: prod.splits bool.splits)
      (metis snd_conv writeFile_disk unlink_disk)
qed


lemma writeLatest_disk:
  assumes "distinct (map fst al)" "writeLatest root al w = (True, w')" "(p, s) \<in> set al"
  shows "if exists s then disk w' (resolve root p) = Some (File (content s))
         else \<forall>c. disk w' (resolve root p) \<noteq> Some (File c)"
  using assms
proof (induction al arbitrary: w)
  case Nil
  then show ?case by simp
next
  case (Cons e al)
  obtain q t where e: "e = (q, t)" by (cases e)
  define w1 where "w1 = (if exists t then snd (fs_writeFile (resolve root q) (content t) w)
                         else snd (fs_unlink (resolve root q) w))"
  have rest: "writeLatest root al w1 = (True, w')"
    and ok: "exists t \<longrightarrow> fst (fs_writeFile (resolve root q) (content t) w)"
  proof -
    show "writeLatest root al w1 = (True, w')"
    proof (cases "exists t")
      case True
      with Cons.prems(2) e show ?thesis
        by (cases "fs_writeFile (resolve root q) (content t) w")
          (simp add: w1_def Let_def split: bool.splits)
    next
      case False
      with Cons.prems(2) e show ?thesis
        by (cases "fs_unlink (resolve root q) w") (simp add: w1_def Let_def)
    qed
    show "exists t \<longrightarrow> fst (fs_writeFile (resolve root q) (content t) w)"
    proof
      assume "exists t"
      with Cons.prems(2) e show "fst (fs_writeFile (resolve root q) (content t) w)"
        by (cases "fs_writeFile (resolve root q) (content t) w")
          (simp add: Let_def split: bool.splits)
    qed
  qed
  from Cons.prems(1) e have dist: "distinct (map fst al)" and fresh: "q \<notin> fst ` set al"
    by auto
  show ?case
  proof (cases "(p, s) \<in> set al")
    case True
    from Cons.IH[OF dist rest True] show ?thesis .
  next
    case False
    with Cons.prems(3) e have ps: "p = q" "s = t" by auto
    have "resolve root q \<notin> resolve root ` fst ` set al"
      using fresh by (simp add: inj_image_mem_iff inj_def)
    from writeLatest_frame[OF this, of w1] rest
    have same: "disk w' (resolve root q) = disk w1 (resolve root q)" by simp
    show ?thesis
      using ok unfolding ps same w1_def
      by (simp add: writeFile_disk unlink_no_file)
  qed
qed

lemma restoreEntries_trace:
  "trace (snd (restoreEntries root al w)) = trace w @ map (restoreEvent root) al"
proof (induction al arbitrary: w)
  case Nil
  then show ?case by simp
next
  case (Cons e al)
  obtain p st where e: "e = (p, st)" by (cases e)
  show ?case
    using e Cons.IH
    by (simp add: Let_def case_prod_unfold writeFile_trace unlink_trace restoreEvent_def)
qed




lemma lookup_in_set: "DAList.lookup al p = Some s \<Longrightarrow> (p, s) \<in> set (DAList.impl_of al)"
  unfolding DAList.lookup.rep_eq by (rule map_of_SomeD)

lemma lookup_keys: "(DAList.lookup al p \<noteq> None) = (p \<in> fst ` set (DAList.impl_of al))"
  by (simp add: DAList.lookup.rep_eq map_of_eq_None_iff)

lemma commit_success:
  assumes "commit v w = (Inr (), v', w')"
  obtains w1 where "\<not> isCommitted v" "v' = v\<lparr>isCommitted := True\<rparr>"
    "createDirectories
       (new_Set (map dirname
          (new_Set (map (\<lambda>op. resolve (rootDir v) (path op)) (operationQueue v))))) w = (True, w1)"
    "writeLatest (rootDir v) (DAList.impl_of (latestContent v)) w1 = (True, w')"
proof -
  let ?dirs = "new_Set (map dirname
          (new_Set (map (\<lambda>op. resolve (rootDir v) (path op)) (operationQueue v))))"
  from assms have nc: "\<not> isCommitted v" by (cases "isCommitted v") (simp_all add: commit_def)
  obtain b1 w1 where cd: "createDirectories ?dirs w = (b1, w1)" by (cases "createDirectories ?dirs w")
  obtain b2 w2 where wl: "writeLatest (rootDir v) (DAList.impl_of (latestContent v)) w1 = (b2, w2)"
    by (cases "writeLatest (rootDir v) (DAList.impl_of (latestContent v)) w1")
  from assms nc cd have b1: "b1" by (cases b1) (simp_all add: commit_def Let_def)
  from assms nc cd wl b1 have b2: "b2" by (cases b2) (simp_all add: commit_def Let_def)
  from assms nc cd wl b1 b2 have "v' = v\<lparr>isCommitted := True\<rparr>" "w' = w2"
    by (simp_all add: commit_def Let_def)
  with that nc cd wl b1 b2 show ?thesis by simp
qed


lemma andThen_eq: "andThen r f = f (treeOf r) (worldOf r)"
  by (simp add: andThen_def treeOf_def worldOf_def case_prod_unfold)

subsection \<open>When commit and rollback succeed, and what the directory loop does\<close>


lemma writeFile_dirs:
  "(disk (snd (fs_writeFile a c w)) x = Some Dir) = (disk w x = Some Dir)"
  by (simp add: fs_writeFile_def log_event_def)

lemma unlink_dirs:
  "(disk (snd (fs_unlink a w)) x = Some Dir) = (disk w x = Some Dir)"
  by (auto simp: fs_unlink_def log_event_def split: option.splits node.splits)




lemma restoreEntries_dirs:
  "(disk (snd (restoreEntries root al w)) x = Some Dir) = (disk w x = Some Dir)"
proof (induction al arbitrary: w)
  case Nil
  then show ?case by simp
next
  case (Cons e al)
  obtain p st where e: "e = (p, st)" by (cases e)
  show ?case using e Cons.IH
    by (simp add: Let_def case_prod_unfold writeFile_dirs unlink_dirs)
qed







subsection \<open>The cache is the fold of the queue\<close>

lemma applyOperation_spec:
  "applyOperation ty c s = spec_step s \<lparr>opid = n, path = p, type = ty, op_content = c\<rparr>"
  by (cases ty) simp_all

lemma projection_inv_initialize: "projection_inv d (initialize v)"
  by (simp add: projection_inv_def initialize_def)

lemma captured_fields [simp]:
  "latestContent (captured v d p) = latestContent v"
  "operationQueue (captured v d p) = operationQueue v"
  "rootDir (captured v d p) = rootDir v"
  "isCommitted (captured v d p) = isCommitted v"
  "operationCounter (captured v d p) = operationCounter v"
  by (simp_all add: captured_def)

lemma staged_fields [simp]:
  "rootDir (staged v d p ty c) = rootDir v"
  "isCommitted (staged v d p ty c) = isCommitted v"
  "originalStates (staged v d p ty c) = originalStates v"
  by (simp_all add: staged_def)

lemma projection_inv_captured: "projection_inv d (captured v d' p) = projection_inv d v"
  by (simp add: projection_inv_def)

lemma projection_inv_staged:
  assumes "projection_inv d v"
  shows "projection_inv d (staged v d p ty c)"
proof -
  from assms have inv:
    "\<And>q s. DAList.lookup (latestContent v) q = Some s \<Longrightarrow>
       s = spec_projection d (rootDir v) (operationQueue v) q"
    "\<And>q. DAList.lookup (latestContent v) q = None \<Longrightarrow>
       filter (\<lambda>op. path op = q) (operationQueue v) = []"
    unfolding projection_inv_def by blast+
  have cur: "(case DAList.lookup (latestContent v) p of Some s \<Rightarrow> s
               | None \<Rightarrow> diskState d (resolve (rootDir v) p))
             = spec_projection d (rootDir v) (operationQueue v) p"
  proof (cases "DAList.lookup (latestContent v) p")
    case None
    with inv(2)[OF None] show ?thesis by (simp add: spec_projection_def)
  next
    case (Some s)
    with inv(1)[OF Some] show ?thesis by simp
  qed
  show ?thesis
    unfolding projection_inv_def
  proof (intro allI conjI impI)
    fix q s
    assume look: "DAList.lookup (latestContent (staged v d p ty c)) q = Some s"
    show "s = spec_projection d (rootDir (staged v d p ty c))
                (operationQueue (staged v d p ty c)) q"
    proof (cases "q = p")
      case True
      with look have "s = applyOperation ty c (spec_projection d (rootDir v) (operationQueue v) p)"
        by (simp add: staged_def cur)
      then show ?thesis
        unfolding True
        by (simp add: staged_def spec_projection_def
            applyOperation_spec[of ty c _ "Suc (operationCounter v)" p])
    next
      case False
      with look have "DAList.lookup (latestContent v) q = Some s" by (simp add: staged_def)
      from inv(1)[OF this] False show ?thesis by (simp add: staged_def spec_projection_def)
    qed
  next
    fix q
    assume look: "DAList.lookup (latestContent (staged v d p ty c)) q = None"
    then have ne: "q \<noteq> p" by (auto simp: staged_def)
    with look have "DAList.lookup (latestContent v) q = None" by (simp add: staged_def)
    from inv(2)[OF this] ne
    show "filter (\<lambda>op. path op = q) (operationQueue (staged v d p ty c)) = []"
      by (simp add: staged_def)
  qed
qed

lemma addOperation_tree_cases:
  "treeOf (addOperation p ty c v w) = captured v (disk w) p
   \<or> treeOf (addOperation p ty c v w) = staged (captured v (disk w) p) (disk w) p ty c"
  by (subst (1 2) addOperation_unfold) (simp add: treeOf_def split: option.splits)

lemma stable_addOperation:
  assumes "stable d root (v, w)"
  shows "stable d root (snd (addOperation p ty c v w))"
proof -
  from assms have inv: "projection_inv d v" and dw: "disk w = d" and r: "rootDir v = root"
    and nc: "\<not> isCommitted v" by (simp_all add: stable_def)
  have t: "fst (snd (addOperation p ty c v w)) = treeOf (addOperation p ty c v w)"
    by (simp add: treeOf_def)
  from addOperation_tree_cases[of p ty c v w]
  have "projection_inv d (treeOf (addOperation p ty c v w))
        \<and> rootDir (treeOf (addOperation p ty c v w)) = root
        \<and> \<not> isCommitted (treeOf (addOperation p ty c v w))"
    using inv r nc dw projection_inv_staged[of d "captured v d p" p ty c]
    by (auto simp: projection_inv_captured)
  then show ?thesis
    by (simp add: stable_def t addOperation_disk dw)
qed

lemma readFile_disk: "disk (snd (snd (readFile p v w))) = disk w"
  by (simp add: readFile_def Let_def fs_stat_def fs_readFile_def log_event_def
      split: option.splits node.splits)

lemma readFile_tree:
  "fst (snd (readFile p v w)) =
     (case DAList.lookup (latestContent v) p of
        Some s \<Rightarrow> v
      | None \<Rightarrow>
          (case disk w (resolve (rootDir v) p) of
             Some (File c) \<Rightarrow>
               v\<lparr>latestContent := DAList.update p \<lparr>content = c, exists = True\<rparr> (latestContent v)\<rparr>
           | _ \<Rightarrow> v))"
  by (simp add: readFile_def Let_def fs_stat_def fs_readFile_def log_event_def
      split: option.splits node.splits)

lemma readFile_value:
  "fst (readFile p v w) =
     (let s = (case DAList.lookup (latestContent v) p of
                 Some s \<Rightarrow> s | None \<Rightarrow> diskState (disk w) (resolve (rootDir v) p))
      in if exists s then Inr (content s) else Inl (NotFound p))"
  by (simp add: readFile_def Let_def fs_stat_def fs_readFile_def log_event_def diskState_def
      split: option.splits node.splits)

lemma stable_readFile:
  assumes "stable d root (v, w)"
  shows "stable d root (snd (readFile p v w))"
proof -
  from assms have inv: "projection_inv d v" and dw: "disk w = d" and r: "rootDir v = root"
    and nc: "\<not> isCommitted v" by (simp_all add: stable_def)
  have "projection_inv d (fst (snd (readFile p v w)))"
  proof (cases "DAList.lookup (latestContent v) p")
    case (Some s)
    then show ?thesis using inv by (simp add: readFile_tree)
  next
    case None
    show ?thesis
    proof (cases "disk w (resolve (rootDir v) p)")
      case dNone: None
      then show ?thesis using inv None by (simp add: readFile_tree)
    next
      case (Some n)
      show ?thesis
      proof (cases n)
        case Dir
        then show ?thesis using inv None Some by (simp add: readFile_tree)
      next
        case (File c)
        from inv None have empty: "filter (\<lambda>op. path op = p) (operationQueue v) = []"
          unfolding projection_inv_def by blast
        have "projection_inv d
            (v\<lparr>latestContent := DAList.update p \<lparr>content = c, exists = True\<rparr> (latestContent v)\<rparr>)"
          using inv empty Some File dw
          unfolding projection_inv_def
          by (simp add: DAList.lookup_update spec_projection_def diskState_def)
        then show ?thesis using None Some File by (simp add: readFile_tree)
      qed
    qed
  qed
  moreover have "rootDir (fst (snd (readFile p v w))) = root"
    "\<not> isCommitted (fst (snd (readFile p v w)))"
    using r nc by (simp_all add: readFile_tree split: option.splits node.splits)
  ultimately show ?thesis by (simp add: stable_def readFile_disk dw)
qed


lemma stable_step:
  assumes "stable d root s"
  shows "stable d root (step c s)"
proof -
  obtain v w where s: "s = (v, w)" by (cases s)
  note st = assms[unfolded s]
  show ?thesis
  proof (cases c)
    case (CreateFile p x)
    then show ?thesis using stable_addOperation[OF st] by (simp add: s createFile_def)
  next
    case (ModifyFile p x)
    then show ?thesis using stable_addOperation[OF st] by (simp add: s modifyFile_def)
  next
    case (AppendToFile p x)
    then show ?thesis using stable_addOperation[OF st] by (simp add: s appendToFile_def)
  next
    case (PrependToFile p x)
    then show ?thesis using stable_addOperation[OF st] by (simp add: s prependToFile_def)
  next
    case (DeleteFile p)
    then show ?thesis using stable_addOperation[OF st] by (simp add: s deleteFile_def)
  next
    case (TransformFile p f)
    obtain r v1 w1 where rf: "readFile p v w = (r, v1, w1)" by (cases "readFile p v w")
    from stable_readFile[OF st, of p] rf have "stable d root (v1, w1)" by simp
    from stable_addOperation[OF this] TransformFile rf show ?thesis
      by (simp add: s transformFile_def Let_def)
  next
    case (OverwriteFile p x)
    obtain ex w1 where fe: "fileExists p v w = (ex, w1)" by (cases "fileExists p v w")
    from fileExists_disk[of p v w] fe st have "stable d root (v, w1)" by (simp add: stable_def)
    from stable_addOperation[OF this] OverwriteFile fe show ?thesis
      by (simp add: s overwriteFile_def)
  next
    case (ReadFile p)
    then show ?thesis using stable_readFile[OF st] by (simp add: s)
  next
    case (FileExists p)
    then show ?thesis using st fileExists_disk[of p v w] by (simp add: s stable_def)
  next
    case Rollback
    then show ?thesis using st
      by (simp add: s stable_def rollback_def projection_inv_def)
  qed
qed

lemma stable_run: "stable d root s \<Longrightarrow> stable d root (run cs s)"
  unfolding run_def
  by (induction cs arbitrary: s) (simp_all add: stable_step)

lemma stable_initialize: "stable (disk w) (rootDir v) (initialize v, w)"
  by (simp add: stable_def projection_inv_initialize) (simp add: initialize_def)


subsection \<open>Traces of commit and rollback, and the capture step\<close>

lemma lookup_iff_in_set:
  "(DAList.lookup al p = Some s) = ((p, s) \<in> set (DAList.impl_of al))"
  unfolding DAList.lookup.rep_eq by (rule map_of_eq_Some_iff) simp

lemma mkdir_trace: "trace (snd (fs_mkdir p w)) = trace w @ [EvMkdir p]"
  by (simp add: fs_mkdir_def log_event_def case_prod_unfold)

lemma createDirectories_trace:
  "createDirectories dirs w = (True, w1) \<Longrightarrow> trace w1 = trace w @ map EvMkdir dirs"
proof (induction dirs arbitrary: w)
  case Nil
  then show ?case by simp
next
  case (Cons dir dirs)
  obtain b w' where mk: "fs_mkdir dir w = (b, w')" by (cases "fs_mkdir dir w")
  from Cons.prems mk have b: "b" by (cases b) simp_all
  from Cons.prems mk b have rest: "createDirectories dirs w' = (True, w1)" by simp
  from mkdir_trace[of dir w] mk have "trace w' = trace w @ [EvMkdir dir]" by simp
  with Cons.IH[OF rest] show ?case by simp
qed

lemma commit_trace:
  assumes "commit v w = (Inr (), v', w')"
  shows "drop (length (trace w)) (trace w') =
     map EvMkdir (new_Set (map dirname
          (new_Set (map (\<lambda>op. resolve (rootDir v) (path op)) (operationQueue v)))))
     @ map (commitEvent (rootDir v)) (DAList.impl_of (latestContent v))"
proof -
  from assms obtain w1 where
    cd: "createDirectories
       (new_Set (map dirname
          (new_Set (map (\<lambda>op. resolve (rootDir v) (path op)) (operationQueue v))))) w = (True, w1)"
    and wl: "writeLatest (rootDir v) (DAList.impl_of (latestContent v)) w1 = (True, w')"
    by (rule commit_success)
  from createDirectories_trace[OF cd] writeLatest_trace[OF wl] show ?thesis by simp
qed

lemma lookup_captured:
  "DAList.lookup (originalStates (captured v d p)) p =
     Some (case DAList.lookup (originalStates v) p of
             Some st \<Rightarrow> st
           | None \<Rightarrow> originalOf d (resolve (rootDir v) p))"
  by (cases "DAList.lookup (originalStates v) p") (simp_all add: captured_def)

lemma rollback_committed_trace:
  assumes "isCommitted v"
  shows "trace (worldOf (rollback v w)) =
           trace w @ map (restoreEvent (rootDir v)) (DAList.impl_of (originalStates v))"
proof -
  have "worldOf (rollback v w) = snd (restoreEntries (rootDir v) (DAList.impl_of (originalStates v)) w)"
    using assms
    by (cases "restoreEntries (rootDir v) (DAList.impl_of (originalStates v)) w")
      (simp add: rollback_def restoreOriginalState_def worldOf_def split: bool.splits)
  then show ?thesis by (simp add: restoreEntries_trace)
qed

lemma virtualExists_captured [simp]:
  "virtualExists (captured v d p) d' q = virtualExists v d' q"
  by (simp add: virtualExists_def cong: option.case_cong)

text \<open>When \<^verbatim>\<open>createFile\<close> throws its conflict error.\<close>

lemma createFile_conflict_iff:
  "(fst (createFile p c v w) = Inl (CreateConflict p)) =
     ((existed (case DAList.lookup (originalStates v) p of
                  Some st \<Rightarrow> st
                | None \<Rightarrow> originalOf (disk w) (resolve (rootDir v) p))
       \<or> virtualExists v (disk w) p)
      \<and> \<not> hasDeleteOperation (operationQueue v) p)"
  unfolding createFile_def
  by (subst addOperation_unfold)
    (simp add: rejects_def Let_def lookup_captured split: option.splits)




subsection \<open>The store holds the state before the transaction\<close>








text \<open>\<^verbatim>\<open>transformFile\<close> and \<^verbatim>\<open>overwriteFile\<close> call \<^verbatim>\<open>readFile\<close> and \<^verbatim>\<open>fileExists\<close> before
  \<^verbatim>\<open>_addOperation\<close>; when they are rejected, the queue and the projection are unchanged all
  the same.\<close>

lemma transformFile_rejected:
  assumes "fst (transformFile p f v w) = Inl e"
  shows "latestContent (treeOf (transformFile p f v w)) = latestContent v
    \<and> operationQueue (treeOf (transformFile p f v w)) = operationQueue v"
proof -
  obtain r v1 w1 where rf: "readFile p v w = (r, v1, w1)" by (cases "readFile p v w")
  have tf: "transformFile p f v w =
      addOperation p Modify (Some (f (case r of Inr s \<Rightarrow> s | Inl e \<Rightarrow> []))) v1 w1"
    by (simp add: transformFile_def rf Let_def)
  let ?c = "Some (f (case r of Inr s \<Rightarrow> s | Inl e \<Rightarrow> []))"
  from assms have rej: "rejects v1 (disk w1) p Modify \<noteq> None"
    unfolding tf by (subst (asm) addOperation_unfold) (auto split: option.splits)
  then have t: "treeOf (transformFile p f v w) = captured v1 (disk w1) p"
    unfolding tf by (subst addOperation_unfold) (auto simp: treeOf_def split: option.splits)
  from rej have ne: "\<not> virtualExists v1 (disk w1) p"
    by (auto simp: rejects_def Let_def lookup_captured split: if_splits)
  have v1: "v1 = fst (snd (readFile p v w))" and w1: "disk w1 = disk w"
    using rf readFile_disk[of p v w] by simp_all
  have "v1 = v"
  proof (rule ccontr)
    assume "v1 \<noteq> v"
    then have "DAList.lookup (latestContent v) p = None"
      and "\<exists>x. disk w (resolve (rootDir v) p) = Some (File x)"
      unfolding v1 by (auto simp: readFile_tree split: option.splits node.splits)
    then obtain x where "v1 = v\<lparr>latestContent :=
        DAList.update p \<lparr>content = x, exists = True\<rparr> (latestContent v)\<rparr>"
      unfolding v1 by (auto simp: readFile_tree)
    then have "virtualExists v1 (disk w1) p" by (simp add: virtualExists_def)
    with ne show False by simp
  qed
  then show ?thesis by (simp add: t)
qed

lemma overwriteFile_rejected:
  assumes "fst (overwriteFile p c v w) = Inl e"
  shows "latestContent (treeOf (overwriteFile p c v w)) = latestContent v
    \<and> operationQueue (treeOf (overwriteFile p c v w)) = operationQueue v"
proof -
  obtain ex w1 where fe: "fileExists p v w = (ex, w1)" by (cases "fileExists p v w")
  have ov: "overwriteFile p c v w = addOperation p (if ex then Modify else Create) (Some c) v w1"
    by (simp add: overwriteFile_def fe)
  from assms have "rejects v (disk w1) p (if ex then Modify else Create) \<noteq> None"
    unfolding ov by (subst (asm) addOperation_unfold) (auto split: option.splits)
  then have "treeOf (overwriteFile p c v w) = captured v (disk w1) p"
    unfolding ov by (subst addOperation_unfold) (auto simp: treeOf_def split: option.splits)
  then show ?thesis by simp
qed

section \<open>The claims\<close>

subsection \<open>The projection\<close>

text \<open>
  C1. Take a freshly initialized transaction on any disk and let a plugin make any sequence
  of calls before a commit: creations, modifications, appends, prepends, deletions,
  transforms and overwrites (accepted or rejected), reads, existence checks and rollbacks.
  Then every entry of the projection equals the left fold, in queue order, of the queued
  operations of its path over the state the path had on the disk before the transaction
  (the content of a regular file, or absence), and \<^verbatim>\<open>readFile\<close> on any path returns the
  content of that fold when the fold exists and throws when it does not.
\<close>

theorem projection_is_fold:
  "(\<forall>p s. DAList.lookup (latestContent (fst (run cs (initialize v0, w0)))) p = Some s \<longrightarrow>
       s = spec_projection (disk w0) (rootDir v0)
             (operationQueue (fst (run cs (initialize v0, w0)))) p)
   \<and> (\<forall>p. fst (readFile p (fst (run cs (initialize v0, w0))) (snd (run cs (initialize v0, w0))))
        = (let s = spec_projection (disk w0) (rootDir v0)
                     (operationQueue (fst (run cs (initialize v0, w0)))) p
           in if exists s then Inr (content s) else Inl (NotFound p)))"
proof -
  define v where "v = fst (run cs (initialize v0, w0))"
  define w where "w = snd (run cs (initialize v0, w0))"
  have "stable (disk w0) (rootDir v0) (run cs (initialize v0, w0))"
    by (rule stable_run[OF stable_initialize])
  then have inv: "projection_inv (disk w0) v" and dw: "disk w = disk w0"
    and r: "rootDir v = rootDir v0"
    by (simp_all add: stable_def v_def w_def)
  from inv r have a: "\<And>p s. DAList.lookup (latestContent v) p = Some s \<Longrightarrow>
       s = spec_projection (disk w0) (rootDir v0) (operationQueue v) p"
    and b: "\<And>p. DAList.lookup (latestContent v) p = None \<Longrightarrow>
       filter (\<lambda>op. path op = p) (operationQueue v) = []"
    unfolding projection_inv_def by auto
  have cur: "(case DAList.lookup (latestContent v) p of Some s \<Rightarrow> s
               | None \<Rightarrow> diskState (disk w) (resolve (rootDir v) p))
             = spec_projection (disk w0) (rootDir v0) (operationQueue v) p" for p
  proof (cases "DAList.lookup (latestContent v) p")
    case None
    with b[OF None] show ?thesis by (simp add: spec_projection_def dw r)
  next
    case (Some s)
    with a[OF Some] show ?thesis by simp
  qed
  show ?thesis
    unfolding v_def[symmetric] w_def[symmetric]
    using a by (simp add: readFile_value cur)
qed

theorem projection_is_fold_witness:
  "DAList.lookup (latestContent (fst example_run)) [''n.txt'']
     = Some \<lparr>content = ''y!'', exists = True\<rparr>
   \<and> spec_projection (disk example_world) (rootDir example_tree)
         (operationQueue (fst example_run)) [''n.txt'']
     = \<lparr>content = ''y!'', exists = True\<rparr>
   \<and> fst (readFile [''n.txt''] (fst example_run) (snd example_run)) = Inr ''y!''
   \<and> fst (readFile [''a.txt''] (fst example_run) (snd example_run)) = Inr ''very old''"
proof -
  have l: "DAList.lookup (latestContent (fst example_run)) [''n.txt'']
             = Some \<lparr>content = ''y!'', exists = True\<rparr>"
    by (simp add: vft_eval)
  have r: "fst (readFile [''a.txt''] (fst example_run) (snd example_run)) = Inr ''very old''"
    by (simp add: vft_eval)
  note main = projection_is_fold[of example_calls example_tree example_world,
      folded example_run_def]
  from main l
  have f: "spec_projection (disk example_world) (rootDir example_tree)
             (operationQueue (fst example_run)) [''n.txt'']
           = \<lparr>content = ''y!'', exists = True\<rparr>"
    by fastforce
  from main
  have "fst (readFile [''n.txt''] (fst example_run) (snd example_run))
          = (let s = spec_projection (disk example_world) (rootDir example_tree)
                       (operationQueue (fst example_run)) [''n.txt'']
             in if exists s then Inr (content s) else Inl (NotFound [''n.txt'']))"
    by blast
  with f have "fst (readFile [''n.txt''] (fst example_run) (snd example_run)) = Inr ''y!''"
    by simp
  with l f r show ?thesis by simp
qed

subsection \<open>Commit\<close>




text \<open>
  C5. A second \<^verbatim>\<open>commit()\<close> after a successful one fails with the already-committed error
  and returns the tree and the world (disk and trace of filesystem calls) exactly as the
  first commit left them: it makes no filesystem call at all.
\<close>

theorem commit_at_most_once:
  assumes "commit v w = (Inr (), v', w')"
  shows "commit v' w' = (Inl AlreadyCommitted, v', w')"
proof -
  from assms have "v' = v\<lparr>isCommitted := True\<rparr>" by (rule commit_success)
  then have "isCommitted v'" by simp
  then show ?thesis by (simp add: commit_def)
qed

theorem commit_at_most_once_witness:
  "commit (treeOf swap_staged) (worldOf swap_staged)
     = (Inr (), treeOf swap_committed, worldOf swap_committed)
   \<and> commit (treeOf swap_committed) (worldOf swap_committed)
     = (Inl AlreadyCommitted, treeOf swap_committed, worldOf swap_committed)"
proof -
  have ok: "fst swap_committed = Inr ()"
    by (simp add: swap_committed_def swap_staged_def vft_eval)
  have h: "commit (treeOf swap_staged) (worldOf swap_staged)
             = (Inr (), treeOf swap_committed, worldOf swap_committed)"
    using result_eq[OF ok] by (simp add: swap_committed_def andThen_eq)
  from commit_at_most_once[OF h] h show ?thesis by simp
qed

subsection \<open>Rollback\<close>




text \<open>
  C7 (as amended). On a transaction that is not committed, \<^verbatim>\<open>rollback()\<close> returns normally,
  leaves the world (the disk and the trace of filesystem calls, so it neither reads nor
  writes) exactly as it was, and empties the operation queue and the projection, keeping
  every other field. On a transaction with zero staged operations it changes nothing but
  the projection, which loses the entries that reads have cached; it is a no-op exactly
  when, in addition, nothing is cached.
\<close>

theorem rollback_before_commit:
  assumes "\<not> isCommitted v"
  shows "rollback v w = (Inr (), v\<lparr>operationQueue := [], latestContent := DAList.empty\<rparr>, w)
    \<and> (operationQueue v = [] \<longrightarrow>
          rollback v w = (Inr (), v\<lparr>latestContent := DAList.empty\<rparr>, w))
    \<and> ((rollback v w = (Inr (), v, w))
          = (operationQueue v = [] \<and> latestContent v = DAList.empty))"
proof -
  have eq: "rollback v w = (Inr (), v\<lparr>operationQueue := [], latestContent := DAList.empty\<rparr>, w)"
    using assms by (simp add: rollback_def)
  have "(v\<lparr>operationQueue := [], latestContent := DAList.empty\<rparr> = v)
          = (operationQueue v = [] \<and> latestContent v = DAList.empty)"
    by (cases v) auto
  with eq show ?thesis by auto
qed

theorem rollback_before_commit_witness:
  "\<not> isCommitted example_tree
   \<and> operationQueue example_tree = [] \<and> latestContent example_tree = DAList.empty
   \<and> rollback example_tree example_world = (Inr (), example_tree, example_world)
   \<and> \<not> isCommitted (treeOf swap_staged)
   \<and> rollback (treeOf swap_staged) (worldOf swap_staged)
       = (Inr (), (treeOf swap_staged)\<lparr>operationQueue := [], latestContent := DAList.empty\<rparr>,
          worldOf swap_staged)"
proof -
  have a: "\<not> isCommitted example_tree" "operationQueue example_tree = []"
    "latestContent example_tree = DAList.empty"
    by (simp_all add: example_tree_def initialize_def new_VirtualFileTree_def)
  have b: "\<not> isCommitted (treeOf swap_staged)"
    by (simp add: swap_staged_def vft_eval)
  from rollback_before_commit[OF a(1), of example_world]
    rollback_before_commit[OF b, of "worldOf swap_staged"] a b
  show ?thesis by simp
qed

text \<open>
  C7 as stated fails on a transaction with zero staged operations whose projection holds
  a cached read. \<^verbatim>\<open>a.txt\<close> is read and nothing is staged; \<^verbatim>\<open>rollback()\<close> then drops the
  cached entry, so the tree is not as it was, and the difference shows: a commit without
  the rollback writes \<^verbatim>\<open>a.txt\<close> back, a commit after the rollback does not.
\<close>

theorem rollback_drops_cached_reads:
  "fst read_only = Inr ''old''
   \<and> operationQueue (treeOf read_only) = []
   \<and> \<not> isCommitted (treeOf read_only)
   \<and> DAList.lookup (latestContent (treeOf read_only)) [''a.txt'']
       = Some \<lparr>content = ''old'', exists = True\<rparr>
   \<and> fst read_only_rolled_back = Inr ()
   \<and> DAList.lookup (latestContent (treeOf read_only_rolled_back)) [''a.txt''] = None
   \<and> treeOf read_only_rolled_back \<noteq> treeOf read_only
   \<and> fst read_only_committed = Inr ()
   \<and> EvWriteFile [''a.txt''] ''old'' \<in> set (trace (worldOf read_only_committed))
   \<and> fst read_only_rolled_back_committed = Inr ()
   \<and> EvWriteFile [''a.txt''] ''old'' \<notin> set (trace (worldOf read_only_rolled_back_committed))"
proof -
  have a: "DAList.lookup (latestContent (treeOf read_only)) [''a.txt'']
       = Some \<lparr>content = ''old'', exists = True\<rparr>"
    "DAList.lookup (latestContent (treeOf read_only_rolled_back)) [''a.txt''] = None"
    by (simp_all add: read_only_rolled_back_def read_only_def impl_of_update impl_of_empty vft_eval)
  then have ne: "treeOf read_only_rolled_back \<noteq> treeOf read_only"
    by auto
  have b: "fst read_only = Inr ''old''" "operationQueue (treeOf read_only) = []"
    "\<not> isCommitted (treeOf read_only)" "fst read_only_rolled_back = Inr ()"
    by (simp_all add: read_only_rolled_back_def read_only_def vft_eval)
  have c: "fst read_only_committed = Inr ()"
    "EvWriteFile [''a.txt''] ''old'' \<in> set (trace (worldOf read_only_committed))"
    by (simp_all add: read_only_committed_def read_only_def createDirectories.simps
          mkdir_chain.simps writeLatest.simps impl_of_update impl_of_empty vft_eval)
  have d: "fst read_only_rolled_back_committed = Inr ()"
    "EvWriteFile [''a.txt''] ''old'' \<notin> set (trace (worldOf read_only_rolled_back_committed))"
    by (simp_all add: read_only_rolled_back_committed_def read_only_rolled_back_def read_only_def
          createDirectories.simps mkdir_chain.simps writeLatest.simps impl_of_update
          impl_of_empty vft_eval)
  from a ne b c d show ?thesis by simp
qed

subsection \<open>Checkpoints\<close>

text \<open>
  C6. A checkpoint holds the queue, the original-state store, the projection and the
  counter of the tree it was taken from. Restoring it at once leaves \<^verbatim>\<open>preview()\<close>
  unchanged; restoring it on any later state of the tree replaces the queue, the projection,
  the counter and the store by the saved ones and sets \<open>isCommitted\<close> to false.
\<close>

theorem checkpoint_round_trip:
  "preview (restore (createCheckpoint v) v) = preview v
   \<and> restore (createCheckpoint v) v' =
       v'\<lparr>operationQueue := operationQueue v, originalStates := originalStates v,
          latestContent := latestContent v, operationCounter := operationCounter v,
          isCommitted := False\<rparr>
   \<and> operationQueue (restore cp v') = savedOperations cp
   \<and> latestContent (restore cp v') = savedLatestContent cp
   \<and> operationCounter (restore cp v') = savedCounter cp
   \<and> originalStates (restore cp v') = savedOriginalStates cp
   \<and> isCommitted (restore cp v') = False"
  by (simp add: restore_def createCheckpoint_def preview_def)

subsection \<open>Creation\<close>

text \<open>
  C4 (the code at the failing input). \<^verbatim>\<open>a.txt\<close> is on disk; its deletion and then its
  creation with content \<^verbatim>\<open>x\<close> are staged. The path now exists in the projection and the most
  recent queued operation for it is a create, yet a further \<^verbatim>\<open>createFile\<close> on it is
  accepted: the test in \<^verbatim>\<open>_addOperation\<close> looks for a delete anywhere in the queue of the
  path, not for a delete as its last operation.
\<close>

theorem create_accepted_on_recreated_file:
  "map type (preview (treeOf recreate_staged)) = [Delete, Create]
   \<and> fst (fileExists [''a.txt''] (treeOf recreate_staged) (worldOf recreate_staged))
   \<and> fst (readFile [''a.txt''] (treeOf recreate_staged) (worldOf recreate_staged)) = Inr ''x''
   \<and> fst (createFile [''a.txt''] ''y'' (treeOf recreate_staged) (worldOf recreate_staged))
       = Inr ()"
  by (simp add: recreate_staged_def vft_eval)

subsection \<open>Export\<close>

text \<open>
  C8 (as amended). \<^verbatim>\<open>toFsUpdates()\<close> lists exactly the paths whose projection entry has
  \<open>exists = true\<close>, each once: the entry of such a path carries the absolute path, the
  encoded projected content and always the kind \<^verbatim>\<open>modify\<close>. A path whose entry has
  \<open>exists = false\<close> has no entry in the list.
\<close>

theorem toFsUpdates_exports_existing:
  "(\<forall>p s. DAList.lookup (latestContent v) p = Some s \<and> exists s \<longrightarrow>
       \<lparr>upd_path = resolve (rootDir v) p, upd_content = utf8 (content s), upd_type = UpdModify\<rparr>
         \<in> set (toFsUpdates utf8 v))
   \<and> (\<forall>u \<in> set (toFsUpdates utf8 v).
         \<exists>p s. DAList.lookup (latestContent v) p = Some s \<and> exists s
           \<and> u = \<lparr>upd_path = resolve (rootDir v) p, upd_content = utf8 (content s),
                   upd_type = UpdModify\<rparr>)
   \<and> distinct (map upd_path (toFsUpdates utf8 v))"
proof (intro conjI)
  show "\<forall>p s. DAList.lookup (latestContent v) p = Some s \<and> exists s \<longrightarrow>
       \<lparr>upd_path = resolve (rootDir v) p, upd_content = utf8 (content s), upd_type = UpdModify\<rparr>
         \<in> set (toFsUpdates utf8 v)"
    by (force simp: toFsUpdates_def lookup_iff_in_set)
  show "\<forall>u \<in> set (toFsUpdates utf8 v).
         \<exists>p s. DAList.lookup (latestContent v) p = Some s \<and> exists s
           \<and> u = \<lparr>upd_path = resolve (rootDir v) p, upd_content = utf8 (content s),
                   upd_type = UpdModify\<rparr>"
    by (auto simp: toFsUpdates_def lookup_iff_in_set)
  have eq: "map upd_path (toFsUpdates utf8 v) =
      map (resolve (rootDir v))
        (map fst (filter (\<lambda>(p, state). exists state) (DAList.impl_of (latestContent v))))"
    by (simp add: toFsUpdates_def case_prod_unfold comp_def)
  have d: "distinct (map fst (filter (\<lambda>(p, state). exists state)
      (DAList.impl_of (latestContent v))))"
    by (rule distinct_map_filter) simp
  have "inj_on (resolve (rootDir v)) A" for A by (simp add: inj_on_def)
  with d have "distinct (map (resolve (rootDir v))
        (map fst (filter (\<lambda>(p, state). exists state) (DAList.impl_of (latestContent v)))))"
    by (subst distinct_map) blast
  then show "distinct (map upd_path (toFsUpdates utf8 v))"
    by (simp only: eq)
qed

theorem toFsUpdates_exports_existing_witness:
  "DAList.lookup (latestContent (treeOf swap_staged)) [''new.txt'']
     = Some \<lparr>content = ''x'', exists = True\<rparr>
   \<and> \<lparr>upd_path = [''new.txt''], upd_content = ''x'', upd_type = UpdModify\<rparr>
       \<in> set (toFsUpdates (\<lambda>s. s) (treeOf swap_staged))"
proof -
  have l: "DAList.lookup (latestContent (treeOf swap_staged)) [''new.txt'']
             = Some \<lparr>content = ''x'', exists = True\<rparr>"
    by (simp add: swap_staged_def vft_eval)
  have root: "rootDir (treeOf swap_staged) = []"
    by (simp add: swap_staged_def vft_eval)
  from toFsUpdates_exports_existing[of "treeOf swap_staged" "\<lambda>s. s"] l
  have "\<lparr>upd_path = resolve (rootDir (treeOf swap_staged)) [''new.txt''],
          upd_content = content \<lparr>content = ''x'', exists = True\<rparr>, upd_type = UpdModify\<rparr>
         \<in> set (toFsUpdates (\<lambda>s. s) (treeOf swap_staged))"
    by fastforce
  with l show ?thesis by (simp add: root resolve_def)
qed

text \<open>
  C8 as stated fails twice on one transaction: the deleted \<^verbatim>\<open>a.txt\<close> is in the projection
  and has no entry in the export, and the entry of \<^verbatim>\<open>new.txt\<close> has the kind \<^verbatim>\<open>modify\<close>
  although the operation staged for it is a create.
\<close>

theorem toFsUpdates_drops_deleted_and_kind:
  "map (\<lambda>op. (path op, type op)) (preview (treeOf swap_staged))
     = [([''a.txt''], Delete), ([''new.txt''], Create), ([''tmp.txt''], Create),
        ([''tmp.txt''], Delete)]
   \<and> DAList.lookup (latestContent (treeOf swap_staged)) [''a.txt'']
       = Some \<lparr>content = [], exists = False\<rparr>
   \<and> toFsUpdates (\<lambda>s. s) (treeOf swap_staged)
       = [\<lparr>upd_path = [''new.txt''], upd_content = ''x'', upd_type = UpdModify\<rparr>]"
  by (simp add: swap_staged_def vft_eval)

subsection \<open>Reads and rejected calls leave their mark\<close>

text \<open>
  C9. \<^verbatim>\<open>readFile\<close> on a path that has no projection entry and is a regular file on disk
  returns its content and inserts the path into the projection as existing with that
  content, staging nothing. Any later successful \<^verbatim>\<open>commit()\<close> that still finds this entry
  writes the file with the content that was read, and the file holds it afterwards.
\<close>

theorem read_pollutes_commit:
  assumes "DAList.lookup (latestContent v) p = None"
    and "disk w (resolve (rootDir v) p) = Some (File c)"
  shows "fst (readFile p v w) = Inr c
    \<and> treeOf (readFile p v w) =
        v\<lparr>latestContent := DAList.update p \<lparr>content = c, exists = True\<rparr> (latestContent v)\<rparr>
    \<and> (\<forall>v1 w1 v2 w2.
          DAList.lookup (latestContent v1) p = Some \<lparr>content = c, exists = True\<rparr>
          \<and> rootDir v1 = rootDir v \<and> commit v1 w1 = (Inr (), v2, w2) \<longrightarrow>
          EvWriteFile (resolve (rootDir v) p) c \<in> set (drop (length (trace w1)) (trace w2))
          \<and> disk w2 (resolve (rootDir v) p) = Some (File c))"
proof (intro conjI allI impI)
  show "fst (readFile p v w) = Inr c"
    using assms by (simp add: readFile_value diskState_def)
  show "treeOf (readFile p v w) =
        v\<lparr>latestContent := DAList.update p \<lparr>content = c, exists = True\<rparr> (latestContent v)\<rparr>"
    using assms by (simp add: treeOf_def readFile_tree)
next
  fix v1 w1 v2 w2
  assume a: "DAList.lookup (latestContent v1) p = Some \<lparr>content = c, exists = True\<rparr>
          \<and> rootDir v1 = rootDir v \<and> commit v1 w1 = (Inr (), v2, w2)"
  then have look: "DAList.lookup (latestContent v1) p = Some \<lparr>content = c, exists = True\<rparr>"
    and root: "rootDir v1 = rootDir v" and co: "commit v1 w1 = (Inr (), v2, w2)"
    by simp_all
  from lookup_in_set[OF look]
  have "commitEvent (rootDir v1) (p, \<lparr>content = c, exists = True\<rparr>)
          \<in> set (map (commitEvent (rootDir v1)) (DAList.impl_of (latestContent v1)))"
    unfolding set_map by (rule imageI)
  moreover have "commitEvent (rootDir v1) (p, \<lparr>content = c, exists = True\<rparr>)
      = EvWriteFile (resolve (rootDir v) p) c"
    by (simp add: commitEvent_def root)
  ultimately
  show "EvWriteFile (resolve (rootDir v) p) c \<in> set (drop (length (trace w1)) (trace w2))"
    unfolding commit_trace[OF co] by (simp only: set_append UnI2)
  from co obtain w3 where
    wl: "writeLatest (rootDir v1) (DAList.impl_of (latestContent v1)) w3 = (True, w2)"
    by (rule commit_success)
  from writeLatest_disk[OF impl_of_distinct wl lookup_in_set[OF look]]
  show "disk w2 (resolve (rootDir v) p) = Some (File c)"
    by (simp add: root)
qed

theorem read_pollutes_commit_witness:
  "DAList.lookup (latestContent example_tree) [''a.txt''] = None
   \<and> disk example_world (resolve (rootDir example_tree) [''a.txt'']) = Some (File ''old'')
   \<and> fst read_only = Inr ''old''
   \<and> operationQueue (treeOf read_only) = []
   \<and> commit (treeOf read_only) (worldOf read_only)
       = (Inr (), treeOf read_only_committed, worldOf read_only_committed)
   \<and> EvWriteFile [''a.txt''] ''old''
       \<in> set (drop (length (trace (worldOf read_only))) (trace (worldOf read_only_committed)))"
proof -
  have a: "DAList.lookup (latestContent example_tree) [''a.txt''] = None"
    by (simp add: vft_eval)
  have b: "disk example_world (resolve (rootDir example_tree) [''a.txt'']) = Some (File ''old'')"
    by (simp add: vft_eval)
  have root: "rootDir example_tree = []" by (simp add: vft_eval)
  have ok: "fst read_only_committed = Inr ()"
    by (simp add: read_only_committed_def read_only_def vft_eval)
  have h: "commit (treeOf read_only) (worldOf read_only)
             = (Inr (), treeOf read_only_committed, worldOf read_only_committed)"
    using result_eq[OF ok] by (simp add: read_only_committed_def andThen_eq)
  note main = read_pollutes_commit[OF a b, folded read_only_def]
  from main have t: "treeOf read_only =
      example_tree\<lparr>latestContent :=
        DAList.update [''a.txt''] \<lparr>content = ''old'', exists = True\<rparr> (latestContent example_tree)\<rparr>"
    by blast
  then have l: "DAList.lookup (latestContent (treeOf read_only)) [''a.txt'']
             = Some \<lparr>content = ''old'', exists = True\<rparr>"
    and r: "rootDir (treeOf read_only) = rootDir example_tree"
    and q: "operationQueue (treeOf read_only) = []"
    by (simp_all add: example_tree_def initialize_def new_VirtualFileTree_def)
  from main l r h
  have "EvWriteFile (resolve (rootDir example_tree) [''a.txt'']) ''old''
       \<in> set (drop (length (trace (worldOf read_only))) (trace (worldOf read_only_committed)))"
    by blast
  moreover from main have "fst read_only = Inr ''old''" by blast
  ultimately show ?thesis using a b h q by (simp add: root resolve_def)
qed

text \<open>
  C10 (as amended). A call of \<^verbatim>\<open>_addOperation\<close> that fails its validation leaves the queue
  and the projection as they were, but the original-state store holds an entry for the
  path afterwards: the one it had, or else the state captured from disk before the
  validation. The path is reported by \<^verbatim>\<open>getTrackedFiles()\<close>, and a rollback of a committed
  transaction whose store holds an entry for the path acts on it: it writes the captured
  content back when the path had existed as a regular file and issues an unlink when it
  had not.
\<close>

theorem failed_staging_still_captures:
  assumes "fst (addOperation p ty c v w) = Inl e"
  shows "operationQueue (treeOf (addOperation p ty c v w)) = operationQueue v
    \<and> latestContent (treeOf (addOperation p ty c v w)) = latestContent v
    \<and> DAList.lookup (originalStates (treeOf (addOperation p ty c v w))) p =
        Some (case DAList.lookup (originalStates v) p of
                Some st \<Rightarrow> st
              | None \<Rightarrow> originalOf (disk w) (resolve (rootDir v) p))
    \<and> p \<in> set (getTrackedFiles (treeOf (addOperation p ty c v w)))
    \<and> (\<forall>v2 w2 st.
          isCommitted v2 \<and> rootDir v2 = rootDir v
          \<and> DAList.lookup (originalStates v2) p = Some st \<longrightarrow>
          (if existed st then EvWriteFile (resolve (rootDir v) p) (or_empty (orig_content st))
           else EvUnlink (resolve (rootDir v) p))
            \<in> set (drop (length (trace w2)) (trace (worldOf (rollback v2 w2)))))"
proof -
  have t: "treeOf (addOperation p ty c v w) = captured v (disk w) p"
  proof (cases "rejects v (disk w) p ty")
    case None
    with assms show ?thesis by (subst (asm) addOperation_unfold) simp
  next
    case (Some e')
    then show ?thesis by (subst addOperation_unfold) (simp add: treeOf_def)
  qed
  have tracked: "p \<in> set (getTrackedFiles (captured v (disk w) p))"
    using lookup_keys[of "originalStates (captured v (disk w) p)" p]
    by (simp add: lookup_captured getTrackedFiles_def)
  have later: "(if existed st then EvWriteFile (resolve (rootDir v) p) (or_empty (orig_content st))
           else EvUnlink (resolve (rootDir v) p))
            \<in> set (drop (length (trace w2)) (trace (worldOf (rollback v2 w2))))"
    if "isCommitted v2 \<and> rootDir v2 = rootDir v \<and> DAList.lookup (originalStates v2) p = Some st"
    for v2 w2 st
  proof -
    from that have c: "isCommitted v2" and r: "rootDir v2 = rootDir v"
      and l: "DAList.lookup (originalStates v2) p = Some st" by simp_all
    have ev: "restoreEvent (rootDir v2) (p, st) =
        (if existed st then EvWriteFile (resolve (rootDir v) p) (or_empty (orig_content st))
         else EvUnlink (resolve (rootDir v) p))"
      by (simp add: restoreEvent_def r)
    from lookup_in_set[OF l]
    have "restoreEvent (rootDir v2) (p, st)
            \<in> set (map (restoreEvent (rootDir v2)) (DAList.impl_of (originalStates v2)))"
      unfolding set_map by (rule imageI)
    then show ?thesis
      unfolding rollback_committed_trace[OF c] ev by (simp only: append_eq_conv_conj drop_all
          order_refl drop_append diff_self_eq_0 drop_0 append_Nil)
  qed
  show ?thesis
    unfolding t using tracked later by (simp add: lookup_captured)
qed

theorem failed_staging_still_captures_witness:
  "fst (addOperation [''a.txt''] Create (Some ''new'') example_tree example_world)
     = Inl (CreateConflict [''a.txt''])
   \<and> operationQueue (treeOf conflict_staged) = operationQueue example_tree
   \<and> getTrackedFiles (treeOf conflict_staged) = [[''a.txt'']]
   \<and> isCommitted (treeOf conflict_committed)
   \<and> DAList.lookup (originalStates (treeOf conflict_committed)) [''a.txt'']
       = Some \<lparr>existed = True, orig_content = Some ''old''\<rparr>
   \<and> EvWriteFile [''a.txt''] ''old''
       \<in> set (drop (length (trace (worldOf conflict_committed)))
                (trace (worldOf conflict_rolled_back)))"
proof -
  have f: "fst (addOperation [''a.txt''] Create (Some ''new'') example_tree example_world)
             = Inl (CreateConflict [''a.txt''])"
    by (simp add: vft_eval)
  have st: "conflict_staged = addOperation [''a.txt''] Create (Some ''new'') example_tree example_world"
    by (simp add: conflict_staged_def createFile_def)
  have tr: "getTrackedFiles (treeOf conflict_staged) = [[''a.txt'']]"
    by (simp add: conflict_staged_def vft_eval)
  have c: "isCommitted (treeOf conflict_committed)"
    by (simp add: conflict_committed_def conflict_staged_def vft_eval)
  have r: "rootDir (treeOf conflict_committed) = rootDir example_tree"
    by (simp add: conflict_committed_def conflict_staged_def vft_eval)
  have l: "DAList.lookup (originalStates (treeOf conflict_committed)) [''a.txt'']
             = Some \<lparr>existed = True, orig_content = Some ''old''\<rparr>"
    by (simp add: conflict_committed_def conflict_staged_def vft_eval)
  have rb: "rollback (treeOf conflict_committed) (worldOf conflict_committed) = conflict_rolled_back"
    by (simp add: conflict_rolled_back_def andThen_eq)
  note main = failed_staging_still_captures[OF f, folded st]
  from main have q: "operationQueue (treeOf conflict_staged) = operationQueue example_tree"
    by blast
  from main c r l
  have "(if existed \<lparr>existed = True, orig_content = Some ''old''\<rparr>
         then EvWriteFile (resolve (rootDir example_tree) [''a.txt''])
                (or_empty (orig_content \<lparr>existed = True, orig_content = Some ''old''\<rparr>))
         else EvUnlink (resolve (rootDir example_tree) [''a.txt'']))
        \<in> set (drop (length (trace (worldOf conflict_committed)))
                 (trace (worldOf (rollback (treeOf conflict_committed)
                                   (worldOf conflict_committed)))))"
    by blast
  then have "EvWriteFile [''a.txt''] ''old''
       \<in> set (drop (length (trace (worldOf conflict_committed)))
                (trace (worldOf conflict_rolled_back)))"
    by (simp add: rb or_empty_def resolve_def example_tree_def initialize_def
        new_VirtualFileTree_def)
  with f q tr c l show ?thesis by simp
qed

text \<open>
  C10 as stated says the path is rewritten by the rollback. For a deletion rejected because
  the path is missing, the rollback after a commit only unlinks the path; nothing is written.
\<close>

theorem missing_path_is_unlinked_not_rewritten:
  "fst missing_staged = Inl (MissingFile Delete [''none.txt''])
   \<and> getTrackedFiles (treeOf missing_staged) = [[''none.txt'']]
   \<and> fst missing_committed = Inr ()
   \<and> fst missing_rolled_back = Inr ()
   \<and> drop (length (trace (worldOf missing_committed))) (trace (worldOf missing_rolled_back))
       = [EvUnlink [''none.txt'']]"
  by (simp add: missing_rolled_back_def missing_committed_def missing_staged_def vft_eval)


end
